theory Spec2Isabelle
  imports Main
begin

section \<open>Errors and asynchronous calls\<close>

text \<open>
  A JavaScript \<^verbatim>\<open>Error\<close> object, reduced to its message.
\<close>

datatype error = Error (message: string)

text \<open>
  How a call that returns a promise can end: it throws before a promise exists, the
  promise rejects, or the promise is fulfilled. The difference matters under
  \<^verbatim>\<open>try\<close>: a rejection is caught only where the promise is awaited inside the
  \<^verbatim>\<open>try\<close> block.
\<close>

datatype 'a completion = Throws error | Rejects error | Resolves 'a

section \<open>The Batched Loader\<close>

text \<open>
  Modelled from the spec: \<^verbatim>\<open>loaders.ts\<close> and the loader class it instantiates are
  not among the sources; \<^verbatim>\<open>schemas.ts\<close>, \<^verbatim>\<open>index.ts\<close> and
  \<^verbatim>\<open>types/profile.ts\<close> only call \<^verbatim>\<open>load\<close>, \<^verbatim>\<open>loadMany\<close> and
  \<^verbatim>\<open>prime\<close>. The definitions of this section follow sections 3, 4.1 and 7 of
  the spec.

  A position of the batch function's result list holds a value, null or an error.
\<close>

datatype 'v outcome = Value 'v | Null | Failure error

text \<open>
  Modelled from the spec: the caller-supplied batch fetch function, "input list of N
  deduplicated keys \<rightarrow> output list of exactly N results", or a failure of the fetch as
  a whole.
\<close>

type_synonym ('k, 'v) batch_fn = "'k list \<Rightarrow> error + 'v outcome list"

text \<open>
  Modelled from the spec: what \<^verbatim>\<open>load\<close> hands back at once. A key found in the
  Result Cache is settled already; any other call is a call site of the current Batch
  Window, numbered in call order.
\<close>

datatype 'v promise = Settled "'v outcome" | Waiting nat

text \<open>
  Modelled from the spec: one Batched Loader instance. \<open>cache\<close> is the Result Cache,
  \<open>window\<close> the keys registered in the current Batch Window (one per pending call
  site), \<open>fetch_log\<close> the argument of every invocation of the batch fetch function
  so far.
\<close>

record ('k, 'v) loader =
  cache :: "'k \<rightharpoonup> 'v outcome"
  window :: "'k list"
  fetch_log :: "'k list list"

text \<open>
  Modelled from the spec: an instance as the registry constructs it, nothing cached,
  nothing pending, no fetch made.
\<close>

definition new_loader :: "('k, 'v) loader" where
  "new_loader = \<lparr>cache = Map.empty, window = [], fetch_log = []\<rparr>"

text \<open>
  Modelled from the spec: "deduplicates them preserving first-seen order".
\<close>

fun dedupe :: "'k list \<Rightarrow> 'k list" where
  "dedupe [] = []"
| "dedupe (k # ks) = k # dedupe (removeAll k ks)"

text \<open>
  Modelled from the spec: \<^verbatim>\<open>load(key)\<close> "returns a pending result to the caller
  immediately" and "registers key into the current Batch Window if not already cached
  for this instance".
\<close>

definition load :: "'k \<Rightarrow> ('k, 'v) loader \<Rightarrow> 'v promise \<times> ('k, 'v) loader" where
  "load k st =
     (case cache st k of
        Some r \<Rightarrow> (Settled r, st)
      | None \<Rightarrow> (Waiting (length (window st)), st\<lparr>window := window st @ [k]\<rparr>))"

text \<open>
  Modelled from the spec: \<^verbatim>\<open>loadMany(keys)\<close> is "equivalent to issuing load for each
  key and collecting all outcomes into a list in the same order as input".
\<close>

fun loadMany :: "'k list \<Rightarrow> ('k, 'v) loader \<Rightarrow> 'v promise list \<times> ('k, 'v) loader" where
  "loadMany [] st = ([], st)"
| "loadMany (k # ks) st =
     (let (p, st1) = load k st;
          (ps, st2) = loadMany ks st1
      in (p # ps, st2))"

text \<open>
  Modelled from the spec: \<^verbatim>\<open>prime(key, value)\<close> "pre-populates the Result Cache for
  key without a fetch, so that future load(key) calls resolve immediately with value".
  A key that is cached already keeps its entry: entries "are never evicted during that
  instance's lifetime", and a second \<^verbatim>\<open>load(k)\<close> "returns the identical cached
  result" (sections 3 and 8 of the spec).
\<close>

definition prime :: "'k \<Rightarrow> 'v \<Rightarrow> ('k, 'v) loader \<Rightarrow> ('k, 'v) loader" where
  "prime k v st =
     (case cache st k of
        Some r \<Rightarrow> st
      | None \<Rightarrow> st\<lparr>cache := (cache st)(k \<mapsto> Value v)\<rparr>)"

text \<open>
  Modelled from the spec: a result list of the wrong length "is a contract violation";
  this is the error every caller of the window receives then.
\<close>

definition contract_violation :: error where
  "contract_violation = Error ''batch function returned a list of the wrong length''"

text \<open>
  Modelled from the spec: the deferred dispatch of a Batch Window. It "collects all
  registered keys, deduplicates them preserving first-seen order, and invokes the
  caller-supplied batch fetch function exactly once with that deduplicated ordered
  list", maps the results "back onto the original requested keys by position",
  "fulfils every pending caller" and "populates the Result Cache". If the fetch fails,
  "every pending caller in that window receives the same failure; the Result Cache is
  not populated". No dispatch is scheduled while no key is registered. The result is
  the list of deliveries, one per pending call site in call order.
\<close>

definition dispatch ::
  "('k, 'v) batch_fn \<Rightarrow> ('k, 'v) loader \<Rightarrow> 'v outcome list \<times> ('k, 'v) loader" where
  "dispatch fetch st =
     (if window st = [] then ([], st)
      else
        let keys = dedupe (window st);
            st' = st\<lparr>window := [], fetch_log := fetch_log st @ [keys]\<rparr>
        in case fetch keys of
             Inl e \<Rightarrow> (map (\<lambda>_. Failure e) (window st), st')
           | Inr rs \<Rightarrow>
               if length rs \<noteq> length keys
               then (map (\<lambda>_. Failure contract_violation) (window st), st')
               else
                 let fetched = map_of (zip keys rs)
                 in (map (\<lambda>k. case fetched k of Some r \<Rightarrow> r
                                | None \<Rightarrow> Failure contract_violation) (window st),
                     st'\<lparr>cache := cache st ++ fetched\<rparr>))"

text \<open>
  Modelled from the spec: what the call site holding a promise receives from the
  deliveries of the dispatch of its window; \<open>None\<close> when the promise is not of that
  window.
\<close>

fun await :: "'v promise \<Rightarrow> 'v outcome list \<Rightarrow> 'v outcome option" where
  "await (Settled r) ds = Some r"
| "await (Waiting n) ds = (if n < length ds then Some (ds ! n) else None)"

text \<open>
  Modelled from the spec: the list \<^verbatim>\<open>loadMany\<close> resolves to, the outcome of every
  position, "a per-key failure" appearing "as an error entry in that key's position";
  \<open>None\<close> while a position is not settled.
\<close>

fun collect :: "'v promise list \<Rightarrow> 'v outcome list \<Rightarrow> 'v outcome list option" where
  "collect [] ds = Some []"
| "collect (p # ps) ds =
     (case await p ds of
        None \<Rightarrow> None
      | Some r \<Rightarrow> (case collect ps ds of None \<Rightarrow> None | Some rs \<Rightarrow> Some (r # rs)))"

text \<open>The operations a resolver or the scheduler performs on one loader.\<close>

datatype ('k, 'v) op =
    Load 'k
  | LoadMany "'k list"
  | Prime 'k 'v
  | Dispatch "('k, 'v) batch_fn"

fun apply_op :: "('k, 'v) op \<Rightarrow> ('k, 'v) loader \<Rightarrow> ('k, 'v) loader" where
  "apply_op (Load k) st = snd (load k st)"
| "apply_op (LoadMany ks) st = snd (loadMany ks st)"
| "apply_op (Prime k v) st = prime k v st"
| "apply_op (Dispatch fetch) st = snd (dispatch fetch st)"

section \<open>The Loader Registry\<close>

text \<open>
  The loaders the resolvers name: \<^verbatim>\<open>getSchema\<close> destructures five of them from
  the bundle, \<^verbatim>\<open>Profile.memberType\<close> reads the sixth from the context.
\<close>

datatype kind =
    PostsKind
  | ProfileKind
  | SubscribedToUserKind
  | UserSubscribedToKind
  | UsersKind
  | MemberTypeKind

text \<open>
  A bundle of loaders holds references to loader instances; a reference is the address of the
  instance in the store of the process.
\<close>

record loaders =
  postsLoader :: nat
  profileLoader :: nat
  subscribedToUserLoader :: nat
  userSubscribedToLoader :: nat
  usersLoader :: nat
  memberTypeLoader :: nat

definition addresses :: "loaders \<Rightarrow> nat list" where
  "addresses b =
     [postsLoader b, profileLoader b, subscribedToUserLoader b,
      userSubscribedToLoader b, usersLoader b, memberTypeLoader b]"

text \<open>
  A row of the join table of subscriptions, and a user row as \<^verbatim>\<open>prisma.user\<close>
  returns it (the two relation lists are filled when the query includes them; the
  \<^verbatim>\<open>balance\<close> column and any further column live in the extension part of the
  record).
\<close>

record subscribersOnAuthors =
  subscriberId :: string
  authorId :: string

record user =
  user_id :: string
  user_name :: string
  userSubscribedTo :: "subscribersOnAuthors list"
  subscribedToUser :: "subscribersOnAuthors list"

text \<open>
  The values the loaders hold: a user row (\<^verbatim>\<open>usersLoader\<close>), a list of user ids
  (the two subscription loaders), or a row or list of rows of another table.
\<close>

datatype 'x loaded = UserRow user | IdList "string list" | OtherRows 'x

text \<open>
  The state of the process: the store of loader instances, each tagged with its kind,
  and the database behind the Prisma client.
\<close>

record ('x, 'db) world =
  heap :: "(kind \<times> (string, 'x loaded) loader) list"
  db :: 'db

text \<open>
  The Prisma client, an external collaborator passed in as \<^verbatim>\<open>prisma\<close>: the calls
  the modelled resolvers make, each reading or changing the database.
\<close>

record ('x, 'db) prisma_client =
  user_findMany :: "bool \<Rightarrow> bool \<Rightarrow> 'db \<Rightarrow> user list completion \<times> 'db"
  user_findUnique :: "string \<Rightarrow> 'db \<Rightarrow> user option completion \<times> 'db"
  post_findUnique :: "string \<Rightarrow> 'db \<Rightarrow> 'x option completion \<times> 'db"
  profile_findUnique :: "string \<Rightarrow> 'db \<Rightarrow> 'x option completion \<times> 'db"
  memberType_findUnique :: "string \<Rightarrow> 'db \<Rightarrow> 'x option completion \<times> 'db"
  post_delete :: "string \<Rightarrow> 'db \<Rightarrow> 'x completion \<times> 'db"
  profile_delete :: "string \<Rightarrow> 'db \<Rightarrow> 'x completion \<times> 'db"
  user_delete :: "string \<Rightarrow> 'db \<Rightarrow> user completion \<times> 'db"
  subscribersOnAuthors_delete ::
    "string \<Rightarrow> string \<Rightarrow> 'db \<Rightarrow> subscribersOnAuthors completion \<times> 'db"

text \<open>
  Modelled from the spec: \<^verbatim>\<open>getLoaders\<close> of \<^verbatim>\<open>loaders.ts\<close>, which is not among
  the sources. The registry must "produce a fresh, independent set of Batched Loader
  instances (one per entity/relation kind)": every call constructs a new, empty
  instance for each of the six loaders the sources name and returns their references.
\<close>

definition getLoaders ::
  "('x, 'db) prisma_client \<Rightarrow> ('x, 'db) world \<Rightarrow> loaders \<times> ('x, 'db) world" where
  "getLoaders prisma w =
     (let n = length (heap w)
      in (\<lparr>postsLoader = n, profileLoader = n + 1, subscribedToUserLoader = n + 2,
           userSubscribedToLoader = n + 3, usersLoader = n + 4, memberTypeLoader = n + 5\<rparr>,
          w\<lparr>heap := heap w @
             [(PostsKind, new_loader), (ProfileKind, new_loader),
              (SubscribedToUserKind, new_loader), (UserSubscribedToKind, new_loader),
              (UsersKind, new_loader), (MemberTypeKind, new_loader)]\<rparr>))"

text \<open>
  A method call on the loader a reference points to. A reference always comes from
  \<^verbatim>\<open>getLoaders\<close>; a call through anything else is a \<^verbatim>\<open>TypeError\<close>.
\<close>

definition not_a_loader :: error where
  "not_a_loader = Error ''TypeError: not a loader''"

definition load_at ::
  "nat \<Rightarrow> string \<Rightarrow> ('x, 'db) world \<Rightarrow> 'x loaded promise \<times> ('x, 'db) world" where
  "load_at a k w =
     (if a < length (heap w)
      then let (p, l) = load k (snd (heap w ! a))
           in (p, w\<lparr>heap := (heap w)[a := (fst (heap w ! a), l)]\<rparr>)
      else (Settled (Failure not_a_loader), w))"

definition loadMany_at ::
  "nat \<Rightarrow> string list \<Rightarrow> ('x, 'db) world \<Rightarrow> 'x loaded promise list \<times> ('x, 'db) world" where
  "loadMany_at a ks w =
     (if a < length (heap w)
      then let (ps, l) = loadMany ks (snd (heap w ! a))
           in (ps, w\<lparr>heap := (heap w)[a := (fst (heap w ! a), l)]\<rparr>)
      else (map (\<lambda>_. Settled (Failure not_a_loader)) ks, w))"

definition op_at ::
  "nat \<Rightarrow> (string, 'x loaded) op \<Rightarrow> ('x, 'db) world \<Rightarrow> ('x, 'db) world" where
  "op_at a x w =
     (if a < length (heap w)
      then w\<lparr>heap := (heap w)[a := (fst (heap w ! a), apply_op x (snd (heap w ! a)))]\<rparr>
      else w)"

definition prime_at ::
  "nat \<Rightarrow> string \<Rightarrow> 'x loaded \<Rightarrow> ('x, 'db) world \<Rightarrow> ('x, 'db) world" where
  "prime_at a k v w = op_at a (Prime k v) w"

text \<open>A sequence of loader operations, each on the instance at the given reference.\<close>

fun run_ops ::
  "(nat \<times> (string, 'x loaded) op) list \<Rightarrow> ('x, 'db) world \<Rightarrow> ('x, 'db) world" where
  "run_ops [] w = w"
| "run_ops ((a, x) # xs) w = run_ops xs (op_at a x w)"

section \<open>Schema and context (schemas.ts, index.ts)\<close>

text \<open>
  \<^verbatim>\<open>getSchema(prisma)\<close> builds the object types inside the call, so every resolver
  of the schema it returns closes over the \<^verbatim>\<open>prisma\<close> argument and the loaders
  destructured from \<^verbatim>\<open>getLoaders(prisma)\<close>. The schema is modelled by that closure.
\<close>

record ('x, 'db) gql_schema =
  schema_prisma :: "('x, 'db) prisma_client"
  schema_loaders :: loaders

definition getSchema ::
  "('x, 'db) prisma_client \<Rightarrow> ('x, 'db) world \<Rightarrow> ('x, 'db) gql_schema \<times> ('x, 'db) world" where
  "getSchema prisma w =
     (let (ls, w') = getLoaders prisma w
      in (\<lparr>schema_prisma = prisma, schema_loaders = ls\<rparr>, w'))"

text \<open>
  \<^verbatim>\<open>getContext\<close> of \<^verbatim>\<open>index.ts\<close>: the context value of one request (the
  \<^verbatim>\<open>fastify\<close> field is left out; no modelled resolver reads it).
\<close>

record ('x, 'db) gql_context =
  ctx_prisma :: "('x, 'db) prisma_client"
  ctx_loaders :: loaders

definition getContext ::
  "('x, 'db) prisma_client \<Rightarrow> ('x, 'db) world \<Rightarrow> ('x, 'db) gql_context \<times> ('x, 'db) world" where
  "getContext prisma w =
     (let (ls, w') = getLoaders prisma w
      in (\<lparr>ctx_prisma = prisma, ctx_loaders = ls\<rparr>, w'))"

section \<open>Resolvers (schemas.ts, types/profile.ts)\<close>

text \<open>
  The field resolvers that go through a loader. Each takes the schema whose closure it
  lives in; \<^verbatim>\<open>Profile.memberType\<close> takes the context value instead. A resolver that
  awaits a load before it goes on is given in two parts: up to the \<^verbatim>\<open>await\<close>, and
  from the awaited list of ids on.
\<close>

definition User_profile ::
  "('x, 'db) gql_schema \<Rightarrow> string \<Rightarrow> ('x, 'db) world \<Rightarrow> 'x loaded promise \<times> ('x, 'db) world" where
  "User_profile schema root_id w = load_at (profileLoader (schema_loaders schema)) root_id w"

definition User_posts ::
  "('x, 'db) gql_schema \<Rightarrow> string \<Rightarrow> ('x, 'db) world \<Rightarrow> 'x loaded promise \<times> ('x, 'db) world" where
  "User_posts schema root_id w = load_at (postsLoader (schema_loaders schema)) root_id w"

definition User_userSubscribedTo ::
  "('x, 'db) gql_schema \<Rightarrow> string \<Rightarrow> ('x, 'db) world \<Rightarrow> 'x loaded promise \<times> ('x, 'db) world" where
  "User_userSubscribedTo schema root_id w =
     load_at (userSubscribedToLoader (schema_loaders schema)) root_id w"

definition User_userSubscribedTo_resumed ::
  "('x, 'db) gql_schema \<Rightarrow> string list \<Rightarrow> ('x, 'db) world \<Rightarrow>
     'x loaded promise list \<times> ('x, 'db) world" where
  "User_userSubscribedTo_resumed schema subs w =
     loadMany_at (usersLoader (schema_loaders schema)) subs w"

definition User_subscribedToUser ::
  "('x, 'db) gql_schema \<Rightarrow> string \<Rightarrow> ('x, 'db) world \<Rightarrow> 'x loaded promise \<times> ('x, 'db) world" where
  "User_subscribedToUser schema root_id w =
     load_at (subscribedToUserLoader (schema_loaders schema)) root_id w"

definition User_subscribedToUser_resumed ::
  "('x, 'db) gql_schema \<Rightarrow> string list \<Rightarrow> ('x, 'db) world \<Rightarrow>
     'x loaded promise list \<times> ('x, 'db) world" where
  "User_subscribedToUser_resumed schema subs w =
     loadMany_at (usersLoader (schema_loaders schema)) subs w"

definition SubscribedToUser_userSubscribedTo ::
  "('x, 'db) gql_schema \<Rightarrow> string \<Rightarrow> ('x, 'db) world \<Rightarrow> 'x loaded promise \<times> ('x, 'db) world" where
  "SubscribedToUser_userSubscribedTo schema root_id w =
     load_at (userSubscribedToLoader (schema_loaders schema)) root_id w"

definition SubscribedToUser_userSubscribedTo_resumed ::
  "('x, 'db) gql_schema \<Rightarrow> string list \<Rightarrow> ('x, 'db) world \<Rightarrow>
     'x loaded promise list \<times> ('x, 'db) world" where
  "SubscribedToUser_userSubscribedTo_resumed schema subs w =
     loadMany_at (usersLoader (schema_loaders schema)) subs w"

definition UserSubscribedTo_subscribedToUser ::
  "('x, 'db) gql_schema \<Rightarrow> string \<Rightarrow> ('x, 'db) world \<Rightarrow> 'x loaded promise \<times> ('x, 'db) world" where
  "UserSubscribedTo_subscribedToUser schema root_id w =
     load_at (subscribedToUserLoader (schema_loaders schema)) root_id w"

definition UserSubscribedTo_subscribedToUser_resumed ::
  "('x, 'db) gql_schema \<Rightarrow> string list \<Rightarrow> ('x, 'db) world \<Rightarrow>
     'x loaded promise list \<times> ('x, 'db) world" where
  "UserSubscribedTo_subscribedToUser_resumed schema subs w =
     loadMany_at (usersLoader (schema_loaders schema)) subs w"

definition Profile_memberType ::
  "('x, 'db) gql_context \<Rightarrow> string \<Rightarrow> ('x, 'db) world \<Rightarrow> 'x loaded promise \<times> ('x, 'db) world" where
  "Profile_memberType context memberTypeId w =
     load_at (memberTypeLoader (ctx_loaders context)) memberTypeId w"

text \<open>
  \<^verbatim>\<open>Query.users\<close>: one \<^verbatim>\<open>findMany\<close>, then the loop that primes the loaders with
  every row. The two flags are \<^verbatim>\<open>includeUserSubscribedTo\<close> and
  \<^verbatim>\<open>includeSubscribedToUser\<close>, read from the parsed resolve info.
\<close>

fun prime_users ::
  "loaders \<Rightarrow> bool \<Rightarrow> bool \<Rightarrow> user list \<Rightarrow> ('x, 'db) world \<Rightarrow> ('x, 'db) world" where
  "prime_users ls includeUserSubscribedTo includeSubscribedToUser [] w = w"
| "prime_users ls includeUserSubscribedTo includeSubscribedToUser (u # users) w =
     (let w1 = prime_at (usersLoader ls) (user_id u) (UserRow u) w;
          w2 = (if includeUserSubscribedTo
                then prime_at (userSubscribedToLoader ls) (user_id u)
                       (IdList (map authorId (userSubscribedTo u))) w1
                else w1);
          w3 = (if includeSubscribedToUser
                then prime_at (subscribedToUserLoader ls) (user_id u)
                       (IdList (map subscriberId (subscribedToUser u))) w2
                else w2)
      in prime_users ls includeUserSubscribedTo includeSubscribedToUser users w3)"

definition Query_users ::
  "('x, 'db) gql_schema \<Rightarrow> bool \<Rightarrow> bool \<Rightarrow> ('x, 'db) world \<Rightarrow>
     user list completion \<times> ('x, 'db) world" where
  "Query_users schema includeUserSubscribedTo includeSubscribedToUser w =
     (case user_findMany (schema_prisma schema)
             includeUserSubscribedTo includeSubscribedToUser (db w) of
        (Resolves users, d) \<Rightarrow>
          (Resolves users,
           prime_users (schema_loaders schema)
             includeUserSubscribedTo includeSubscribedToUser users (w\<lparr>db := d\<rparr>))
      | (Throws e, d) \<Rightarrow> (Rejects e, w\<lparr>db := d\<rparr>)
      | (Rejects e, d) \<Rightarrow> (Rejects e, w\<lparr>db := d\<rparr>))"

text \<open>
  The fields with a resolver that names a loader, and for each the loaders its resolver
  names: the kind and the reference, read off the resolver's body.
\<close>

datatype field =
    UserProfile
  | UserPosts
  | UserUserSubscribedTo
  | UserSubscribedToUser
  | SubscribedToUserUserSubscribedTo
  | UserSubscribedToSubscribedToUser
  | QueryUsers
  | ProfileMemberType

fun loaders_used ::
  "('x, 'db) gql_schema \<Rightarrow> ('x, 'db) gql_context \<Rightarrow> field \<Rightarrow> (kind \<times> nat) list" where
  "loaders_used s c UserProfile = [(ProfileKind, profileLoader (schema_loaders s))]"
| "loaders_used s c UserPosts = [(PostsKind, postsLoader (schema_loaders s))]"
| "loaders_used s c UserUserSubscribedTo =
     [(UserSubscribedToKind, userSubscribedToLoader (schema_loaders s)),
      (UsersKind, usersLoader (schema_loaders s))]"
| "loaders_used s c UserSubscribedToUser =
     [(SubscribedToUserKind, subscribedToUserLoader (schema_loaders s)),
      (UsersKind, usersLoader (schema_loaders s))]"
| "loaders_used s c SubscribedToUserUserSubscribedTo =
     [(UserSubscribedToKind, userSubscribedToLoader (schema_loaders s)),
      (UsersKind, usersLoader (schema_loaders s))]"
| "loaders_used s c UserSubscribedToSubscribedToUser =
     [(SubscribedToUserKind, subscribedToUserLoader (schema_loaders s)),
      (UsersKind, usersLoader (schema_loaders s))]"
| "loaders_used s c QueryUsers =
     [(UsersKind, usersLoader (schema_loaders s)),
      (UserSubscribedToKind, userSubscribedToLoader (schema_loaders s)),
      (SubscribedToUserKind, subscribedToUserLoader (schema_loaders s))]"
| "loaders_used s c ProfileMemberType = [(MemberTypeKind, memberTypeLoader (ctx_loaders c))]"





text \<open>
  The delete mutations. Each is
  \<^verbatim>\<open>try { await prisma.x.delete(...); return true } catch (error) { return false }\<close>:
  the call is awaited inside the \<^verbatim>\<open>try\<close>, so a throw and a rejection both end in
  the \<^verbatim>\<open>catch\<close>.
\<close>

definition deletePost ::
  "('x, 'db) gql_schema \<Rightarrow> string \<Rightarrow> 'db \<Rightarrow> bool completion \<times> 'db" where
  "deletePost schema i d =
     (case post_delete (schema_prisma schema) i d of
        (Resolves r, d') \<Rightarrow> (Resolves True, d')
      | (Throws e, d') \<Rightarrow> (Resolves False, d')
      | (Rejects e, d') \<Rightarrow> (Resolves False, d'))"

definition deleteProfile ::
  "('x, 'db) gql_schema \<Rightarrow> string \<Rightarrow> 'db \<Rightarrow> bool completion \<times> 'db" where
  "deleteProfile schema i d =
     (case profile_delete (schema_prisma schema) i d of
        (Resolves r, d') \<Rightarrow> (Resolves True, d')
      | (Throws e, d') \<Rightarrow> (Resolves False, d')
      | (Rejects e, d') \<Rightarrow> (Resolves False, d'))"

definition deleteUser ::
  "('x, 'db) gql_schema \<Rightarrow> string \<Rightarrow> 'db \<Rightarrow> bool completion \<times> 'db" where
  "deleteUser schema i d =
     (case user_delete (schema_prisma schema) i d of
        (Resolves r, d') \<Rightarrow> (Resolves True, d')
      | (Throws e, d') \<Rightarrow> (Resolves False, d')
      | (Rejects e, d') \<Rightarrow> (Resolves False, d'))"

definition unsubscribeFrom ::
  "('x, 'db) gql_schema \<Rightarrow> string \<Rightarrow> string \<Rightarrow> 'db \<Rightarrow> bool completion \<times> 'db" where
  "unsubscribeFrom schema userId author d =
     (case subscribersOnAuthors_delete (schema_prisma schema) userId author d of
        (Resolves r, d') \<Rightarrow> (Resolves True, d')
      | (Throws e, d') \<Rightarrow> (Resolves False, d')
      | (Rejects e, d') \<Rightarrow> (Resolves False, d'))"

section \<open>The request handler (index.ts)\<close>

text \<open>
  The functions of the GraphQL library the handler calls are external collaborators:
  \<^verbatim>\<open>parse\<close> (which throws on a syntax error), \<^verbatim>\<open>validate\<close> with a list of rules,
  and \<^verbatim>\<open>graphql\<close>, the execution, which runs the resolvers of the schema against the
  context value and so reads and changes the state of the process.
\<close>

datatype rule = depthLimit nat

datatype gql_error = GraphQLError string

record 'vars request =
  query :: string
  variables :: "'vars option"

record 'd response =
  data :: "'d option"
  errors :: "gql_error list option"

record ('doc, 'vars, 'd, 'x, 'db) graphql_js =
  parse :: "string \<Rightarrow> error + 'doc"
  validate :: "('x, 'db) gql_schema \<Rightarrow> 'doc \<Rightarrow> rule list \<Rightarrow> gql_error list"
  graphql ::
    "('x, 'db) gql_schema \<Rightarrow> string \<Rightarrow> 'vars option \<Rightarrow> ('x, 'db) gql_context \<Rightarrow>
       ('x, 'db) world \<Rightarrow> 'd response completion \<times> ('x, 'db) world"

text \<open>
  The \<^verbatim>\<open>POST /\<close> handler. \<^verbatim>\<open>prisma\<close> is the client of the server instance
  (\<^verbatim>\<open>this.prisma\<close>, \<^verbatim>\<open>fastify.prisma\<close>). The handler is \<^verbatim>\<open>async\<close>: a throw of
  \<^verbatim>\<open>parse\<close> rejects its promise. The \<^verbatim>\<open>console.error\<close> of the \<^verbatim>\<open>catch\<close> is
  left out.
\<close>

definition handler ::
  "('doc, 'vars, 'd, 'x, 'db) graphql_js \<Rightarrow> ('x, 'db) prisma_client \<Rightarrow> 'vars request \<Rightarrow>
     ('x, 'db) world \<Rightarrow> 'd response completion \<times> ('x, 'db) world" where
  "handler lib prisma req w =
     (let (context, w1) = getContext prisma w
      in (case parse lib (query req) of
            Inl e \<Rightarrow> (Rejects e, w1)
          | Inr document \<Rightarrow>
              (let (schema, w2) = getSchema prisma w1;
                   validationErrors = validate lib schema document [depthLimit 5]
               in (if length validationErrors > 0
                   then (Resolves \<lparr>data = None, errors = Some validationErrors\<rparr>, w2)
                   else
                     (let (schema', w3) = getSchema prisma w2
                      in (case graphql lib schema' (query req) (variables req) context w3 of
                            (Resolves result, w4) \<Rightarrow> (Resolves result, w4)
                          | (Throws e, w4) \<Rightarrow>
                              (Resolves \<lparr>data = None,
                                         errors = Some [GraphQLError (message e)]\<rparr>, w4)
                          | (Rejects e, w4) \<Rightarrow>
                              (Resolves \<lparr>data = None,
                                         errors = Some [GraphQLError (message e)]\<rparr>, w4)))))))"

text \<open>
  The number of loader instances of a kind in the store.
\<close>

definition instances_of :: "kind \<Rightarrow> ('x, 'db) world \<Rightarrow> nat" where
  "instances_of kd w = length (filter (\<lambda>e. fst e = kd) (heap w))"

text \<open>
  The loader references a request holds: those of the closure of its executing schema
  and those of its context value.
\<close>

definition request_loaders ::
  "('x, 'db) gql_schema \<Rightarrow> ('x, 'db) gql_context \<Rightarrow> nat set" where
  "request_loaders s c =
     set (addresses (schema_loaders s)) \<union> set (addresses (ctx_loaders c))"

text \<open>
  An execution that does nothing but hand back the schema and the context value it was
  called with. The handler passes the same arguments to whatever execution it is given,
  so this one shows which loaders the resolvers of a request get.
\<close>

definition probe ::
  "('x, 'db) gql_schema \<Rightarrow> string \<Rightarrow> 'vars option \<Rightarrow> ('x, 'db) gql_context \<Rightarrow>
     ('x, 'db) world \<Rightarrow>
     (('x, 'db) gql_schema \<times> ('x, 'db) gql_context) response completion \<times> ('x, 'db) world" where
  "probe schema source vars context w =
     (Resolves \<lparr>data = Some (schema, context), errors = None\<rparr>, w)"

section \<open>Stand-ins for the external collaborators, for the examples\<close>

text \<open>
  An in-memory database with a counter of the reads it has served, and a client over
  it. As the Prisma client documents, \<^verbatim>\<open>findUnique\<close> resolves to null when no row
  has the key, and \<^verbatim>\<open>delete\<close> rejects when the row to delete does not exist. Rows
  of posts and profiles are reduced to their ids.
\<close>

record memory_db =
  users_table :: "user list"
  posts_table :: "string list"
  profiles_table :: "string list"
  subscriptions_table :: "subscribersOnAuthors list"
  reads :: nat

definition record_not_found :: error where
  "record_not_found = Error ''Record to delete does not exist.''"

definition memory_client :: "(string, memory_db) prisma_client" where
  "memory_client =
     \<lparr>user_findMany = (\<lambda>i1 i2 d. (Resolves (users_table d), d\<lparr>reads := Suc (reads d)\<rparr>)),
      user_findUnique =
        (\<lambda>i d. (Resolves (find (\<lambda>u. user_id u = i) (users_table d)),
                 d\<lparr>reads := Suc (reads d)\<rparr>)),
      post_findUnique =
        (\<lambda>i d. (Resolves (find (\<lambda>p. p = i) (posts_table d)), d\<lparr>reads := Suc (reads d)\<rparr>)),
      profile_findUnique =
        (\<lambda>i d. (Resolves (find (\<lambda>p. p = i) (profiles_table d)), d\<lparr>reads := Suc (reads d)\<rparr>)),
      memberType_findUnique =
        (\<lambda>i d. (Resolves (find (\<lambda>p. p = i) [''BASIC'', ''BUSINESS'']),
                 d\<lparr>reads := Suc (reads d)\<rparr>)),
      post_delete =
        (\<lambda>i d. if i \<in> set (posts_table d)
                then (Resolves i, d\<lparr>posts_table := removeAll i (posts_table d)\<rparr>)
                else (Rejects record_not_found, d)),
      profile_delete =
        (\<lambda>i d. if i \<in> set (profiles_table d)
                then (Resolves i, d\<lparr>profiles_table := removeAll i (profiles_table d)\<rparr>)
                else (Rejects record_not_found, d)),
      user_delete =
        (\<lambda>i d. case find (\<lambda>u. user_id u = i) (users_table d) of
                  Some u \<Rightarrow> (Resolves u, d\<lparr>users_table := removeAll u (users_table d)\<rparr>)
                | None \<Rightarrow> (Rejects record_not_found, d)),
      subscribersOnAuthors_delete =
        (\<lambda>sub author d.
           if \<lparr>subscriberId = sub, authorId = author\<rparr> \<in> set (subscriptions_table d)
           then (Resolves \<lparr>subscriberId = sub, authorId = author\<rparr>,
                 d\<lparr>subscriptions_table :=
                      removeAll \<lparr>subscriberId = sub, authorId = author\<rparr>
                        (subscriptions_table d)\<rparr>)
           else (Rejects record_not_found, d))\<rparr>"

definition empty_db :: memory_db where
  "empty_db =
     \<lparr>users_table = [], posts_table = [], profiles_table = [],
      subscriptions_table = [], reads = 0\<rparr>"

definition empty_world :: "(string, memory_db) world" where
  "empty_world = \<lparr>heap = [], db = empty_db\<rparr>"

text \<open>
  A stand-in for the GraphQL library: a document is reduced to the number of opening
  braces of the query, \<^verbatim>\<open>parse\<close> throws on the empty query, a depth limit of
  \<open>n\<close> reports one error when the selection sets below the outermost one are nested
  more than \<open>n\<close> levels deep, and the execution is \<open>probe\<close>.
\<close>

definition braces :: "string \<Rightarrow> nat" where
  "braces q = length (filter (\<lambda>c. c = CHR ''{'') q)"

definition check_rule :: "nat \<Rightarrow> rule \<Rightarrow> gql_error list" where
  "check_rule doc r =
     (case r of depthLimit n \<Rightarrow>
        if Suc n < doc then [GraphQLError ''exceeds maximum operation depth''] else [])"

definition test_lib ::
  "(nat, unit, (string, memory_db) gql_schema \<times> (string, memory_db) gql_context,
    string, memory_db) graphql_js" where
  "test_lib =
     \<lparr>parse = (\<lambda>q. if q = [] then Inl (Error ''Syntax Error'') else Inr (braces q)),
      validate = (\<lambda>schema doc rules. concat (map (check_rule doc) rules)),
      graphql = probe\<rparr>"

definition shallow_request :: "unit request" where
  "shallow_request = \<lparr>query = ''{users{id}}'', variables = None\<rparr>"

definition deep_request :: "unit request" where
  "deep_request = \<lparr>query = ''{a{b{c{d{e{f{g}}}}}}}'', variables = None\<rparr>"


section \<open>Auxiliary notions of the proofs\<close>

text \<open>Whether a call ended in a fulfilled promise.\<close>

definition succeeded :: "'a completion \<Rightarrow> bool" where
  "succeeded c = (case c of Resolves r \<Rightarrow> True | Throws e \<Rightarrow> False | Rejects e \<Rightarrow> False)"

text \<open>
  The call site that position \<open>i\<close> of \<^verbatim>\<open>loadMany(ks)\<close> gets in the window when its
  key is not cached: the sites taken before the call, and one for every earlier
  position whose key is not cached either.
\<close>

definition site :: "('k, 'v) loader \<Rightarrow> 'k list \<Rightarrow> nat \<Rightarrow> nat" where
  "site st ks i = length (window st) + length (filter (\<lambda>k. cache st k = None) (take i ks))"

text \<open>What one call of \<^verbatim>\<open>getLoaders\<close> adds to the store, and the bundle it returns.\<close>

definition fresh_loaders :: "(kind \<times> (string, 'x loaded) loader) list" where
  "fresh_loaders =
     [(PostsKind, new_loader), (ProfileKind, new_loader),
      (SubscribedToUserKind, new_loader), (UserSubscribedToKind, new_loader),
      (UsersKind, new_loader), (MemberTypeKind, new_loader)]"

definition loaders_at :: "nat \<Rightarrow> loaders" where
  "loaders_at n =
     \<lparr>postsLoader = n, profileLoader = n + 1, subscribedToUserLoader = n + 2,
      userSubscribedToLoader = n + 3, usersLoader = n + 4, memberTypeLoader = n + 5\<rparr>"

text \<open>The effect of the loop of \<^verbatim>\<open>Query.users\<close> on the users loader.\<close>

definition prime_rows ::
  "user list \<Rightarrow> (string, 'x loaded) loader \<Rightarrow> (string, 'x loaded) loader" where
  "prime_rows users st = fold (\<lambda>u. prime (user_id u) (UserRow u)) users st"

section \<open>Inputs of the examples\<close>

definition alice :: user where
  "alice = \<lparr>user_id = ''u1'', user_name = ''Alice'', userSubscribedTo = [], subscribedToUser = []\<rparr>"


text \<open>
  Two requests in a row. The resolvers of the first prime and load the key \<open>u1\<close> on
  the users loader of its executing schema (reference 16), before the second request
  is handled and again after it.
\<close>

definition first_request_ops :: "(nat \<times> (string, string loaded) op) list" where
  "first_request_ops = [(16, Prime ''u1'' (UserRow alice)), (16, Load ''u1'')]"

definition after_first_request :: "(string, memory_db) world" where
  "after_first_request =
     run_ops first_request_ops
       (snd (handler (test_lib\<lparr>graphql := probe\<rparr>) memory_client shallow_request empty_world))"

definition after_second_request :: "(string, memory_db) world" where
  "after_second_request =
     run_ops first_request_ops
       (snd (handler (test_lib\<lparr>graphql := probe\<rparr>) memory_client shallow_request
              after_first_request))"

text \<open>Two batch functions: one fails at the key \<open>k2\<close> only, one finds no key.\<close>

definition failing_second :: "(string, nat) batch_fn" where
  "failing_second ks =
     Inr (map (\<lambda>k. if k = ''k2'' then Failure (Error ''lookup failed'') else Value (length k)) ks)"


section \<open>Facts about the Batched Loader\<close>

lemma set_dedupe [simp]: "set (dedupe ks) = set ks"
  by (induction ks rule: dedupe.induct) auto

lemma distinct_dedupe [simp]: "distinct (dedupe ks)"
  by (induction ks rule: dedupe.induct) auto

lemma load_cache [simp]: "cache (snd (load k st)) = cache st"
  by (simp add: load_def split: option.splits)

lemma load_fetch_log [simp]: "fetch_log (snd (load k st)) = fetch_log st"
  by (simp add: load_def split: option.splits)

lemma loadMany_Cons_fst:
  "fst (loadMany (k # ks) st) = fst (load k st) # fst (loadMany ks (snd (load k st)))"
  by (simp add: case_prod_beta)

lemma loadMany_Cons_snd:
  "snd (loadMany (k # ks) st) = snd (loadMany ks (snd (load k st)))"
  by (simp add: case_prod_beta)

declare loadMany.simps(2) [simp del]

lemma loadMany_state:
  "snd (loadMany ks st) = st\<lparr>window := window st @ filter (\<lambda>k. cache st k = None) ks\<rparr>"
proof (induction ks arbitrary: st)
  case Nil
  then show ?case by simp
next
  case (Cons k ks)
  show ?case
    by (cases "cache st k") (simp_all add: loadMany_Cons_snd Cons load_def)
qed

lemma loadMany_length [simp]: "length (fst (loadMany ks st)) = length ks"
  by (induction ks arbitrary: st) (simp_all add: loadMany_Cons_fst)

lemma loadMany_nth:
  "i < length ks \<Longrightarrow>
     fst (loadMany ks st) ! i = fst (load (ks ! i) (snd (loadMany (take i ks) st)))"
proof (induction ks arbitrary: st i)
  case Nil
  then show ?case by simp
next
  case (Cons k ks)
  show ?case
  proof (cases i)
    case 0
    then show ?thesis by (simp add: loadMany_Cons_fst)
  next
    case (Suc j)
    with Cons.prems have "j < length ks" by simp
    from Cons.IH [OF this, of "snd (load k st)"] Suc
    show ?thesis by (simp add: loadMany_Cons_fst loadMany_Cons_snd)
  qed
qed

lemma dispatch_length [simp]: "length (fst (dispatch fetch st)) = length (window st)"
  by (simp add: dispatch_def Let_def split: sum.splits)

lemma loadMany_promise_cached:
  assumes "i < length ks" and "cache st (ks ! i) = Some r"
  shows "fst (loadMany ks st) ! i = Settled r"
  using assms by (simp add: loadMany_nth loadMany_state load_def)

lemma loadMany_promise_waiting:
  assumes "i < length ks" and "cache st (ks ! i) = None"
  shows "fst (loadMany ks st) ! i = Waiting (site st ks i)"
  using assms by (simp add: loadMany_nth loadMany_state load_def site_def)

lemma site_in_window:
  assumes "i < length ks" and "cache st (ks ! i) = None"
  shows "site st ks i < length (window (snd (loadMany ks st)))
       \<and> window (snd (loadMany ks st)) ! site st ks i = ks ! i"
proof -
  let ?P = "\<lambda>k. cache st k = None"
  have "ks = take i ks @ ks ! i # drop (Suc i) ks"
    using assms(1) by (simp add: id_take_nth_drop)
  then have "filter ?P ks = filter ?P (take i ks) @ filter ?P (ks ! i # drop (Suc i) ks)"
    by (metis filter_append)
  then have split: "filter ?P ks = filter ?P (take i ks) @ ks ! i # filter ?P (drop (Suc i) ks)"
    using assms(2) by simp
  have w: "window (snd (loadMany ks st)) =
          (window st @ filter ?P (take i ks)) @ ks ! i # filter ?P (drop (Suc i) ks)"
    by (simp add: loadMany_state split)
  show ?thesis
    unfolding w site_def
    by (simp add: nth_append)
qed

lemma promise_settles:
  assumes "i < length ks"
  shows "await (fst (loadMany ks st) ! i) (fst (dispatch fetch (snd (loadMany ks st)))) =
           Some (case cache st (ks ! i) of
                   Some r \<Rightarrow> r
                 | None \<Rightarrow> fst (dispatch fetch (snd (loadMany ks st))) ! site st ks i)"
proof (cases "cache st (ks ! i)")
  case None
  then show ?thesis
    using assms site_in_window [OF assms None]
    by (simp add: loadMany_promise_waiting)
next
  case (Some r)
  then show ?thesis
    using assms by (simp add: loadMany_promise_cached)
qed

lemma collect_all:
  "(\<And>p. p \<in> set ps \<Longrightarrow> await p ds \<noteq> None) \<Longrightarrow>
     collect ps ds = Some (map (\<lambda>p. case await p ds of Some r \<Rightarrow> r | None \<Rightarrow> Null) ps)"
  by (induction ps) (auto split: option.splits)

lemma delivery_failed:
  assumes "n < length (window st)" and "fetch (dedupe (window st)) = Inl e"
  shows "fst (dispatch fetch st) ! n = Failure e"
  using assms by (auto simp: dispatch_def Let_def)

lemma delivery_fetched:
  assumes "n < length (window st)" and "fetch (dedupe (window st)) = Inr out"
      and "length out = length (dedupe (window st))"
  shows "map_of (zip (dedupe (window st)) out) (window st ! n) = Some (fst (dispatch fetch st) ! n)"
proof -
  have "window st ! n \<in> set (dedupe (window st))"
    using assms(1) by simp
  then have "window st ! n \<in> dom (map_of (zip (dedupe (window st)) out))"
    using assms(3) by (simp add: dom_map_of_zip)
  then obtain r where r: "map_of (zip (dedupe (window st)) out) (window st ! n) = Some r"
    by blast
  then show ?thesis
    using assms by (auto simp: dispatch_def Let_def)
qed

lemma load_cached: "cache st k = Some r \<Longrightarrow> load k st = (Settled r, st)"
  by (simp add: load_def)


lemma prime_rows_Nil [simp]: "prime_rows [] st = st"
  by (simp add: prime_rows_def)

lemma prime_rows_Cons [simp]:
  "prime_rows (u # users) st = prime_rows users (prime (user_id u) (UserRow u) st)"
  by (simp add: prime_rows_def)

text \<open>
  \<^verbatim>\<open>prime\<close> on a key with no entry makes the next \<^verbatim>\<open>load\<close> of the key settle
  at once with the primed value, without a fetch; on a key that is cached it changes
  nothing.
\<close>

lemma prime_then_load_uncached:
  assumes "cache st k = None"
  shows "load k (prime k v st) = (Settled (Value v), prime k v st)
       \<and> fetch_log (prime k v st) = fetch_log st
       \<and> window (prime k v st) = window st"
  using assms by (simp add: load_def prime_def)

lemma prime_keeps_entry: "cache st k = Some r \<Longrightarrow> prime k v st = st"
  by (simp add: prime_def)

lemma prime_frame [simp]:
  "fetch_log (prime k v st) = fetch_log st" "window (prime k v st) = window st"
  by (simp_all add: prime_def split: option.splits)

lemma prime_cache_other: "k' \<noteq> k \<Longrightarrow> cache (prime k v st) k' = cache st k'"
  by (simp add: prime_def split: option.splits)

lemma prime_rows_frame [simp]:
  "fetch_log (prime_rows users st) = fetch_log st" "window (prime_rows users st) = window st"
  by (induction users arbitrary: st) simp_all

lemma prime_rows_other:
  "k \<notin> user_id ` set users \<Longrightarrow> cache (prime_rows users st) k = cache st k"
  by (induction users arbitrary: st) (auto simp: prime_cache_other)

lemma prime_rows_cache:
  "distinct (map user_id users) \<Longrightarrow> u \<in> set users \<Longrightarrow> cache st (user_id u) = None \<Longrightarrow>
     cache (prime_rows users st) (user_id u) = Some (Value (UserRow u))"
proof (induction users arbitrary: st)
  case Nil
  then show ?case by simp
next
  case (Cons x xs)
  show ?case
  proof (cases "u = x")
    case True
    with Cons.prems have "user_id u \<notin> user_id ` set xs" by auto
    then show ?thesis
      using True Cons.prems(3) by (simp add: prime_rows_other prime_def)
  next
    case False
    with Cons.prems have u: "u \<in> set xs" and d: "distinct (map user_id xs)"
      by auto
    from u have "user_id u \<in> user_id ` set xs" by (rule imageI)
    with Cons.prems(1) have n: "user_id u \<noteq> user_id x" by auto
    have "cache (prime (user_id x) (UserRow x) st) (user_id u) = None"
      using n Cons.prems(3) by (simp add: prime_cache_other)
    from Cons.IH [OF d u this] show ?thesis by simp
  qed
qed

section \<open>Facts about the registry and the handler\<close>

lemma getLoaders_eq:
  "getLoaders p w = (loaders_at (length (heap w)), w\<lparr>heap := heap w @ fresh_loaders\<rparr>)"
  by (simp add: getLoaders_def loaders_at_def fresh_loaders_def Let_def)

lemma length_fresh_loaders [simp]: "length fresh_loaders = 6"
  by (simp add: fresh_loaders_def)

lemma instances_of_fresh:
  "instances_of kd (w\<lparr>heap := heap w @ fresh_loaders\<rparr>) = Suc (instances_of kd w)"
  by (cases kd) (simp_all add: instances_of_def fresh_loaders_def)

lemma fresh_loaders_nth:
  "fresh_loaders ! 0 = (PostsKind, new_loader)"
  "fresh_loaders ! 1 = (ProfileKind, new_loader)"
  "fresh_loaders ! 2 = (SubscribedToUserKind, new_loader)"
  "fresh_loaders ! 3 = (UserSubscribedToKind, new_loader)"
  "fresh_loaders ! 4 = (UsersKind, new_loader)"
  "fresh_loaders ! 5 = (MemberTypeKind, new_loader)"
  by (simp_all add: fresh_loaders_def)

lemma handler_probe:
  fixes lib :: "('doc, 'vars, ('x, 'db) gql_schema \<times> ('x, 'db) gql_context, 'x, 'db) graphql_js"
  shows "handler (lib\<lparr>graphql := probe\<rparr>) p req w =
     (case parse lib (query req) of
        Inl e \<Rightarrow> (Rejects e, w\<lparr>heap := heap w @ fresh_loaders\<rparr>)
      | Inr doc \<Rightarrow>
          if validate lib \<lparr>schema_prisma = p, schema_loaders = loaders_at (length (heap w) + 6)\<rparr>
               doc [depthLimit 5] \<noteq> []
          then (Resolves \<lparr>data = None,
                  errors = Some (validate lib
                    \<lparr>schema_prisma = p, schema_loaders = loaders_at (length (heap w) + 6)\<rparr>
                    doc [depthLimit 5])\<rparr>,
                w\<lparr>heap := heap w @ fresh_loaders @ fresh_loaders\<rparr>)
          else (Resolves
                  \<lparr>data = Some (\<lparr>schema_prisma = p,
                                  schema_loaders = loaders_at (length (heap w) + 12)\<rparr>,
                                \<lparr>ctx_prisma = p, ctx_loaders = loaders_at (length (heap w))\<rparr>),
                   errors = None\<rparr>,
                w\<lparr>heap := heap w @ fresh_loaders @ fresh_loaders @ fresh_loaders\<rparr>))"
  by (simp add: handler_def getContext_def getSchema_def getLoaders_eq probe_def Let_def
      split: sum.splits)

lemma handler_probe_executed:
  fixes lib :: "('doc, 'vars, ('x, 'db) gql_schema \<times> ('x, 'db) gql_context, 'x, 'db) graphql_js"
  assumes "handler (lib\<lparr>graphql := probe\<rparr>) p req w =
             (Resolves \<lparr>data = Some (s, c), errors = None\<rparr>, w')"
  shows "schema_loaders s = loaders_at (length (heap w) + 12)
       \<and> ctx_loaders c = loaders_at (length (heap w))
       \<and> w' = w\<lparr>heap := heap w @ fresh_loaders @ fresh_loaders @ fresh_loaders\<rparr>"
  using assms unfolding handler_probe
  by (auto split: sum.splits if_splits)

lemma used_are_fresh:
  assumes s: "schema_loaders s = loaders_at (length (heap w) + 12)"
      and c: "ctx_loaders c = loaders_at (length (heap w))"
      and u: "(kd, a) \<in> set (loaders_used s c f)"
  shows "length (heap w) \<le> a \<and> a < length (heap w) + 18
       \<and> (heap w @ fresh_loaders @ fresh_loaders @ fresh_loaders) ! a = (kd, new_loader)"
proof -
  have n: "(heap w @ fresh_loaders @ fresh_loaders @ fresh_loaders) ! (length (heap w) + j)
             = (fresh_loaders @ fresh_loaders @ fresh_loaders) ! j" for j
    by (simp add: nth_append)
  show ?thesis
    using u
    by (cases f) (auto simp: s c loaders_at_def n nth_append fresh_loaders_def add.assoc)
qed

lemma used_same_instance:
  assumes "(kd, a) \<in> set (loaders_used s c f)" and "(kd, b) \<in> set (loaders_used s c g)"
  shows "a = b"
  using assms by (cases f; cases g) auto

lemma op_at_length [simp]: "length (heap (op_at a x w)) = length (heap w)"
  by (simp add: op_at_def)

lemma op_at_other: "a \<noteq> b \<Longrightarrow> heap (op_at a x w) ! b = heap w ! b"
  by (simp add: op_at_def)

lemma run_ops_length [simp]: "length (heap (run_ops ops w)) = length (heap w)"
  by (induction ops arbitrary: w) auto

lemma run_ops_other:
  "b \<notin> fst ` set ops \<Longrightarrow> heap (run_ops ops w) ! b = heap w ! b"
  by (induction ops arbitrary: w) (auto simp: op_at_other)

lemma fresh_at:
  assumes "a \<in> set (addresses (loaders_at (length xs + 12)))
             \<union> set (addresses (loaders_at (length xs)))"
  shows "length xs \<le> a \<and> a < length xs + 18
       \<and> snd ((xs @ fresh_loaders @ fresh_loaders @ fresh_loaders) ! a) = new_loader"
proof -
  have n: "(xs @ fresh_loaders @ fresh_loaders @ fresh_loaders) ! (length xs + j)
             = (fresh_loaders @ fresh_loaders @ fresh_loaders) ! j" for j
    by (simp add: nth_append)
  show ?thesis
    using assms
    by (auto simp: addresses_def loaders_at_def n nth_append fresh_loaders_def add.assoc)
qed

lemma load_at_new:
  assumes "b < length (heap w)" and "snd (heap w ! b) = new_loader"
  shows "fst (load_at b k w) = Waiting 0"
  using assms by (simp add: load_at_def load_def new_loader_def case_prod_beta)

lemma op_at_same:
  "a < length (heap w) \<Longrightarrow>
     heap (op_at a x w) ! a = (fst (heap w ! a), apply_op x (snd (heap w ! a)))"
  by (simp add: op_at_def)

lemma op_at_db [simp]: "db (op_at a x w) = db w"
  by (simp add: op_at_def)

lemma prime_users_usersLoader:
  assumes "usersLoader ls < length (heap w)"
      and "usersLoader ls \<noteq> userSubscribedToLoader ls"
      and "usersLoader ls \<noteq> subscribedToUserLoader ls"
  shows "length (heap (prime_users ls i1 i2 users w)) = length (heap w)
       \<and> heap (prime_users ls i1 i2 users w) ! usersLoader ls =
           (fst (heap w ! usersLoader ls), prime_rows users (snd (heap w ! usersLoader ls)))"
  using assms(1)
proof (induction users arbitrary: w)
  case Nil
  then show ?case by simp
next
  case (Cons u users)
  let ?a = "usersLoader ls"
  let ?w1 = "prime_at ?a (user_id u) (UserRow u) w"
  let ?w2 = "if i1 then prime_at (userSubscribedToLoader ls) (user_id u)
                       (IdList (map authorId (userSubscribedTo u))) ?w1 else ?w1"
  let ?w3 = "if i2 then prime_at (subscribedToUserLoader ls) (user_id u)
                       (IdList (map subscriberId (subscribedToUser u))) ?w2 else ?w2"
  have l3: "length (heap ?w3) = length (heap w)"
    by (simp add: prime_at_def)
  have h1: "heap ?w1 ! ?a = (fst (heap w ! ?a), prime (user_id u) (UserRow u) (snd (heap w ! ?a)))"
    using Cons.prems by (simp add: prime_at_def op_at_same)
  have h2: "heap ?w2 ! ?a = heap ?w1 ! ?a"
    using assms(2) by (simp add: prime_at_def op_at_other)
  have h3: "heap ?w3 ! ?a = heap ?w2 ! ?a"
    using assms(3) by (simp add: prime_at_def op_at_other)
  have "?a < length (heap ?w3)"
    using Cons.prems l3 by simp
  from Cons.IH [OF this] l3 h1 h2 h3
  show ?case
    by (simp add: Let_def)
qed

lemma Query_users_primes:
  assumes f: "user_findMany (schema_prisma schema) i1 i2 (db w) = (Resolves users, d)"
      and s: "schema_loaders schema = loaders_at m" and m: "m + 6 \<le> length (heap w)"
      and u: "distinct (map user_id users)" "u \<in> set users"
             "cache (snd (heap w ! usersLoader (schema_loaders schema))) (user_id u) = None"
  shows "fst (load_at (usersLoader (schema_loaders schema)) (user_id u)
                (snd (Query_users schema i1 i2 w))) = Settled (Value (UserRow u))
       \<and> fetch_log (snd (heap (snd (Query_users schema i1 i2 w))
                          ! usersLoader (schema_loaders schema)))
           = fetch_log (snd (heap w ! usersLoader (schema_loaders schema)))"
proof -
  let ?ls = "schema_loaders schema"
  let ?a = "usersLoader ?ls"
  let ?w = "w\<lparr>db := d\<rparr>"
  have a: "?a < length (heap ?w)" "?a \<noteq> userSubscribedToLoader ?ls" "?a \<noteq> subscribedToUserLoader ?ls"
    using m by (simp_all add: s loaders_at_def)
  have q: "snd (Query_users schema i1 i2 w) = prime_users ?ls i1 i2 users ?w"
    using f by (simp add: Query_users_def)
  from prime_users_usersLoader [OF a, of i1 i2 users]
  have l: "length (heap (prime_users ?ls i1 i2 users ?w)) = length (heap w)"
    and h: "heap (prime_users ?ls i1 i2 users ?w) ! ?a =
              (fst (heap w ! ?a), prime_rows users (snd (heap w ! ?a)))"
    by simp_all
  have c: "load (user_id u) (prime_rows users (snd (heap w ! ?a))) =
             (Settled (Value (UserRow u)), prime_rows users (snd (heap w ! ?a)))"
    by (rule load_cached) (rule prime_rows_cache [OF u])
  show ?thesis
    using a(1) l h c by (simp add: q load_at_def)
qed

lemma load_at_frame: "b \<noteq> a \<Longrightarrow> heap (snd (load_at a k w)) ! b = heap w ! b"
  by (simp add: load_at_def case_prod_beta)

lemma loadMany_at_frame: "b \<noteq> a \<Longrightarrow> heap (snd (loadMany_at a ks w)) ! b = heap w ! b"
  by (simp add: loadMany_at_def case_prod_beta)

lemma prime_users_frame:
  assumes "b \<noteq> usersLoader ls" "b \<noteq> userSubscribedToLoader ls" "b \<noteq> subscribedToUserLoader ls"
  shows "heap (prime_users ls i1 i2 users w) ! b = heap w ! b"
  using assms
  by (induction users arbitrary: w) (simp_all add: Let_def prime_at_def op_at_other)

text \<open>
  The table \<open>loaders_used\<close> agrees with the resolvers: a resolver changes the store
  at no reference but those the table gives for its field.
\<close>

lemma resolvers_change_only_loaders_used:
  "b \<notin> snd ` set (loaders_used s c UserProfile) \<Longrightarrow>
     heap (snd (User_profile s k w)) ! b = heap w ! b"
  "b \<notin> snd ` set (loaders_used s c UserPosts) \<Longrightarrow>
     heap (snd (User_posts s k w)) ! b = heap w ! b"
  "b \<notin> snd ` set (loaders_used s c UserUserSubscribedTo) \<Longrightarrow>
     heap (snd (User_userSubscribedTo s k w)) ! b = heap w ! b
     \<and> heap (snd (User_userSubscribedTo_resumed s ks w)) ! b = heap w ! b"
  "b \<notin> snd ` set (loaders_used s c UserSubscribedToUser) \<Longrightarrow>
     heap (snd (User_subscribedToUser s k w)) ! b = heap w ! b
     \<and> heap (snd (User_subscribedToUser_resumed s ks w)) ! b = heap w ! b"
  "b \<notin> snd ` set (loaders_used s c SubscribedToUserUserSubscribedTo) \<Longrightarrow>
     heap (snd (SubscribedToUser_userSubscribedTo s k w)) ! b = heap w ! b
     \<and> heap (snd (SubscribedToUser_userSubscribedTo_resumed s ks w)) ! b = heap w ! b"
  "b \<notin> snd ` set (loaders_used s c UserSubscribedToSubscribedToUser) \<Longrightarrow>
     heap (snd (UserSubscribedTo_subscribedToUser s k w)) ! b = heap w ! b
     \<and> heap (snd (UserSubscribedTo_subscribedToUser_resumed s ks w)) ! b = heap w ! b"
  "b \<notin> snd ` set (loaders_used s c QueryUsers) \<Longrightarrow>
     heap (snd (Query_users s i1 i2 w)) ! b = heap w ! b"
  "b \<notin> snd ` set (loaders_used s c ProfileMemberType) \<Longrightarrow>
     heap (snd (Profile_memberType c k w)) ! b = heap w ! b"
  by (simp_all add: User_profile_def User_posts_def User_userSubscribedTo_def
      User_userSubscribedTo_resumed_def User_subscribedToUser_def
      User_subscribedToUser_resumed_def SubscribedToUser_userSubscribedTo_def
      SubscribedToUser_userSubscribedTo_resumed_def UserSubscribedTo_subscribedToUser_def
      UserSubscribedTo_subscribedToUser_resumed_def Profile_memberType_def Query_users_def
      load_at_frame loadMany_at_frame prime_users_frame
      split: prod.splits completion.splits)

lemma test_lib_probe: "test_lib\<lparr>graphql := probe\<rparr> = test_lib"
  by (simp add: test_lib_def)

lemma shallow_executed_any:
  "handler (test_lib\<lparr>graphql := probe\<rparr>) memory_client shallow_request w =
     (Resolves
        \<lparr>data = Some (\<lparr>schema_prisma = memory_client,
                        schema_loaders = loaders_at (length (heap w) + 12)\<rparr>,
                      \<lparr>ctx_prisma = memory_client, ctx_loaders = loaders_at (length (heap w))\<rparr>),
         errors = None\<rparr>,
      w\<lparr>heap := heap w @ fresh_loaders @ fresh_loaders @ fresh_loaders\<rparr>)"
  unfolding handler_probe
  by (simp add: test_lib_def shallow_request_def braces_def check_rule_def)

lemma shallow_executed:
  "handler test_lib memory_client shallow_request empty_world =
     (Resolves
        \<lparr>data = Some (\<lparr>schema_prisma = memory_client, schema_loaders = loaders_at 12\<rparr>,
                      \<lparr>ctx_prisma = memory_client, ctx_loaders = loaders_at 0\<rparr>),
         errors = None\<rparr>,
      empty_world\<lparr>heap := fresh_loaders @ fresh_loaders @ fresh_loaders\<rparr>)"
  using shallow_executed_any [of empty_world]
  by (simp add: test_lib_probe empty_world_def)

section \<open>The claims\<close>

subsection \<open>C3: no loader is shared between two requests\<close>

text \<open>
  C3. Two requests are handled one after the other and both reach the execution. The
  resolvers of the first may prime and load on the loaders the first request holds,
  before the second request is handled and after it. Then no loader the second request
  holds is one of the first's, each of them is still as \<^verbatim>\<open>getLoaders\<close>
  constructed it, with an empty cache, and a \<^verbatim>\<open>load(k)\<close> on it is pending in a
  window of its own: nothing primed or loaded for the first request shows in the
  second.
\<close>

theorem requests_share_no_loader:
  fixes lib :: "('doc, 'vars, ('x, 'db) gql_schema \<times> ('x, 'db) gql_context, 'x, 'db) graphql_js"
    and lib' :: "('doc, 'vars, ('x, 'db) gql_schema \<times> ('x, 'db) gql_context, 'x, 'db) graphql_js"
  assumes r1: "handler (lib\<lparr>graphql := probe\<rparr>) prisma req1 w =
                 (Resolves \<lparr>data = Some (s1, c1), errors = None\<rparr>, w1)"
      and o1: "fst ` set ops \<subseteq> request_loaders s1 c1"
      and r2: "handler (lib'\<lparr>graphql := probe\<rparr>) prisma' req2 (run_ops ops w1) =
                 (Resolves \<lparr>data = Some (s2, c2), errors = None\<rparr>, w2)"
      and o2: "fst ` set ops' \<subseteq> request_loaders s1 c1"
      and b: "b \<in> request_loaders s2 c2"
  shows "b \<notin> request_loaders s1 c1
       \<and> b < length (heap (run_ops ops' w2))
       \<and> snd (heap (run_ops ops' w2) ! b) = new_loader
       \<and> fst (load_at b k (run_ops ops' w2)) = Waiting 0"
proof -
  from handler_probe_executed [OF r1]
  have s1: "schema_loaders s1 = loaders_at (length (heap w) + 12)"
    and c1: "ctx_loaders c1 = loaders_at (length (heap w))"
    and w1: "w1 = w\<lparr>heap := heap w @ fresh_loaders @ fresh_loaders @ fresh_loaders\<rparr>"
    by simp_all
  let ?v = "run_ops ops w1"
  from handler_probe_executed [OF r2]
  have s2: "schema_loaders s2 = loaders_at (length (heap ?v) + 12)"
    and c2: "ctx_loaders c2 = loaders_at (length (heap ?v))"
    and w2: "w2 = ?v\<lparr>heap := heap ?v @ fresh_loaders @ fresh_loaders @ fresh_loaders\<rparr>"
    by simp_all
  have len: "length (heap ?v) = length (heap w) + 18"
    by (simp add: w1)
  have old: "a < length (heap w) + 18" if "a \<in> request_loaders s1 c1" for a
    using that fresh_at [of a "heap w"] by (simp add: request_loaders_def s1 c1)
  have new: "length (heap ?v) \<le> b \<and> b < length (heap ?v) + 18
       \<and> snd ((heap ?v @ fresh_loaders @ fresh_loaders @ fresh_loaders) ! b) = new_loader"
    using b fresh_at [of b "heap ?v"] by (simp add: request_loaders_def s2 c2)
  have notin: "b \<notin> request_loaders s1 c1"
    using old [of b] new len by auto
  then have "b \<notin> fst ` set ops'"
    using o2 by blast
  then have same: "heap (run_ops ops' w2) ! b = heap w2 ! b"
    by (rule run_ops_other)
  have lt: "b < length (heap (run_ops ops' w2))"
    using new by (simp add: w2)
  have "heap w2 ! b = (heap ?v @ fresh_loaders @ fresh_loaders @ fresh_loaders) ! b"
    by (simp add: w2)
  with same new have fresh: "snd (heap (run_ops ops' w2) ! b) = new_loader"
    by simp
  show ?thesis
    using notin lt fresh load_at_new [OF lt fresh] by simp
qed

text \<open>
  An instance of C3: the first request primes and loads \<open>u1\<close> on its users loader;
  the same load on the users loader of the second request (reference 34) is pending.
\<close>

theorem requests_share_no_loader_witness:
  "fst (load_at 16 ''u1'' after_second_request) = Settled (Value (UserRow alice))
   \<and> fst (load_at 34 ''u1'' after_second_request) = Waiting 0"
proof -
  let ?h = "handler (test_lib\<lparr>graphql := probe\<rparr>) memory_client shallow_request"
  let ?s1 = "\<lparr>schema_prisma = memory_client, schema_loaders = loaders_at (0 + 12)\<rparr>
              :: (string, memory_db) gql_schema"
  let ?c1 = "\<lparr>ctx_prisma = memory_client, ctx_loaders = loaders_at 0\<rparr>
              :: (string, memory_db) gql_context"
  let ?s2 = "\<lparr>schema_prisma = memory_client, schema_loaders = loaders_at (18 + 12)\<rparr>
              :: (string, memory_db) gql_schema"
  let ?c2 = "\<lparr>ctx_prisma = memory_client, ctx_loaders = loaders_at 18\<rparr>
              :: (string, memory_db) gql_context"
  have e: "length (heap (empty_world :: (string, memory_db) world)) = 0"
    by (simp add: empty_world_def)
  have r1: "?h empty_world = (Resolves \<lparr>data = Some (?s1, ?c1), errors = None\<rparr>, snd (?h empty_world))"
    by (simp add: shallow_executed_any e)
  have l: "length (heap after_first_request) = 18"
    by (simp add: after_first_request_def shallow_executed_any e)
  have r2: "?h (run_ops first_request_ops (snd (?h empty_world))) =
              (Resolves \<lparr>data = Some (?s2, ?c2), errors = None\<rparr>,
               snd (?h (run_ops first_request_ops (snd (?h empty_world)))))"
    using l by (simp add: shallow_executed_any after_first_request_def)
  have o: "fst ` set first_request_ops \<subseteq> request_loaders ?s1 ?c1"
    by (simp add: first_request_ops_def request_loaders_def addresses_def loaders_at_def)
  have b: "34 \<in> request_loaders ?s2 ?c2"
    by (simp add: request_loaders_def addresses_def loaders_at_def)
  from requests_share_no_loader [OF r1 o r2 o b, of "''u1''"]
  have second: "fst (load_at 34 ''u1'' after_second_request) = Waiting 0"
    by (simp add: after_second_request_def after_first_request_def)
  have h: "heap after_second_request ! 16 =
             (UsersKind, \<lparr>cache = [''u1'' \<mapsto> Value (UserRow alice)], window = [], fetch_log = []\<rparr>)"
    by (simp add: after_second_request_def after_first_request_def shallow_executed_any e
        first_request_ops_def op_at_def fresh_loaders_def new_loader_def prime_def load_def
        empty_world_def nth_append)
  have "fst (load_at 16 ''u1'' after_second_request) = Settled (Value (UserRow alice))"
    using h l by (simp add: load_at_def load_def after_second_request_def shallow_executed_any
        after_first_request_def)
  with second show ?thesis by simp
qed

subsection \<open>C4: the loader instances of one request\<close>

text \<open>
  C4, as amended. For every inbound request the handler calls \<^verbatim>\<open>getLoaders\<close> once
  for the context value and once inside each of its (up to two) \<^verbatim>\<open>getSchema\<close> calls:
  one, two or three loader instances per kind are constructed during the request, all
  appended to the store, none of the older ones touched. When the query is executed,
  three per kind have been constructed; every loader a resolver names is one of them
  (so it did not exist before the request), is of the resolver's kind and is still
  empty when the execution starts; and all resolvers that name a kind name the same
  instance of it.
\<close>

theorem handler_loader_instances:
  fixes lib :: "('doc, 'vars, ('x, 'db) gql_schema \<times> ('x, 'db) gql_context, 'x, 'db) graphql_js"
  assumes "handler (lib\<lparr>graphql := probe\<rparr>) prisma req w = (out, w')"
  shows "(\<exists>n. (n = 1 \<or> n = 2 \<or> n = 3)
            \<and> (\<forall>kd. instances_of kd w' = instances_of kd w + n)
            \<and> length (heap w') = length (heap w) + 6 * n
            \<and> take (length (heap w)) (heap w') = heap w)
       \<and> (\<forall>s c. out = Resolves \<lparr>data = Some (s, c), errors = None\<rparr> \<longrightarrow>
             (\<forall>kd. instances_of kd w' = instances_of kd w + 3)
           \<and> (\<forall>f kd a. (kd, a) \<in> set (loaders_used s c f) \<longrightarrow>
                 length (heap w) \<le> a \<and> a < length (heap w') \<and> heap w' ! a = (kd, new_loader))
           \<and> (\<forall>f g kd a b.
                 (kd, a) \<in> set (loaders_used s c f) \<and> (kd, b) \<in> set (loaders_used s c g)
                   \<longrightarrow> a = b))"
proof -
  let ?w1 = "w\<lparr>heap := heap w @ fresh_loaders\<rparr>"
  let ?w2 = "w\<lparr>heap := heap w @ fresh_loaders @ fresh_loaders\<rparr>"
  let ?w3 = "w\<lparr>heap := heap w @ fresh_loaders @ fresh_loaders @ fresh_loaders\<rparr>"
  have i1: "instances_of kd ?w1 = instances_of kd w + 1" for kd
    using instances_of_fresh [of kd w] by simp
  have i2: "instances_of kd ?w2 = instances_of kd w + 2" for kd
    using instances_of_fresh [of kd ?w1] i1 [of kd] by simp
  have i3: "instances_of kd ?w3 = instances_of kd w + 3" for kd
    using instances_of_fresh [of kd ?w2] i2 [of kd] by simp
  have cases: "w' = ?w1 \<or> w' = ?w2 \<or> w' = ?w3"
    using assms unfolding handler_probe by (auto split: sum.splits if_splits)
  have first: "\<exists>n. (n = 1 \<or> n = 2 \<or> n = 3)
            \<and> (\<forall>kd. instances_of kd w' = instances_of kd w + n)
            \<and> length (heap w') = length (heap w) + 6 * n
            \<and> take (length (heap w)) (heap w') = heap w"
    using cases
  proof (elim disjE)
    assume "w' = ?w1"
    then show ?thesis using i1 by (intro exI [of _ 1]) simp
  next
    assume "w' = ?w2"
    then show ?thesis using i2 by (intro exI [of _ 2]) simp
  next
    assume "w' = ?w3"
    then show ?thesis using i3 by (intro exI [of _ 3]) simp
  qed
  have second: "(\<forall>kd. instances_of kd w' = instances_of kd w + 3)
           \<and> (\<forall>f kd a. (kd, a) \<in> set (loaders_used s c f) \<longrightarrow>
                 length (heap w) \<le> a \<and> a < length (heap w') \<and> heap w' ! a = (kd, new_loader))
           \<and> (\<forall>f g kd a b.
                 (kd, a) \<in> set (loaders_used s c f) \<and> (kd, b) \<in> set (loaders_used s c g)
                   \<longrightarrow> a = b)"
    if "out = Resolves \<lparr>data = Some (s, c), errors = None\<rparr>" for s c
  proof -
    from assms that handler_probe_executed [of lib prisma req w s c w']
    have s: "schema_loaders s = loaders_at (length (heap w) + 12)"
      and c: "ctx_loaders c = loaders_at (length (heap w))"
      and w': "w' = ?w3"
      by simp_all
    show ?thesis
      using used_are_fresh [OF s c] used_same_instance [of _ _ s c] i3
      by (simp add: w') blast
  qed
  show ?thesis using first second by blast
qed

text \<open>
  C4 as stated fails: a request whose query is executed constructs three users loaders,
  not exactly one.
\<close>

theorem three_instances_per_kind_counterexample:
  "instances_of UsersKind empty_world = 0
   \<and> instances_of UsersKind
       (snd (handler test_lib memory_client shallow_request empty_world)) = 3"
  unfolding shallow_executed
  by (simp add: instances_of_def empty_world_def fresh_loaders_def)

text \<open>An instance of the amended C4, at the same request.\<close>

theorem handler_loader_instances_witness:
  "fst (handler test_lib memory_client shallow_request empty_world) =
     Resolves
        \<lparr>data = Some (\<lparr>schema_prisma = memory_client, schema_loaders = loaders_at 12\<rparr>,
                      \<lparr>ctx_prisma = memory_client, ctx_loaders = loaders_at 0\<rparr>),
         errors = None\<rparr>
   \<and> instances_of PostsKind (snd (handler test_lib memory_client shallow_request empty_world)) = 3
   \<and> heap (snd (handler test_lib memory_client shallow_request empty_world)) ! 12
       = (PostsKind, new_loader)"
proof -
  let ?s = "\<lparr>schema_prisma = memory_client, schema_loaders = loaders_at 12\<rparr>"
  let ?c = "\<lparr>ctx_prisma = memory_client, ctx_loaders = loaders_at 0\<rparr>"
  let ?w = "empty_world\<lparr>heap := fresh_loaders @ fresh_loaders @ fresh_loaders\<rparr>
              :: (string, memory_db) world"
  have h: "handler (test_lib\<lparr>graphql := probe\<rparr>) memory_client shallow_request empty_world =
             (Resolves \<lparr>data = Some (?s, ?c), errors = None\<rparr>, ?w)"
    by (simp add: test_lib_probe shallow_executed)
  have u: "(PostsKind, 12) \<in> set (loaders_used ?s ?c UserPosts)"
    by (simp add: loaders_at_def)
  from handler_loader_instances [OF h]
  have "instances_of PostsKind ?w = instances_of PostsKind empty_world + 3"
    and "heap ?w ! 12 = (PostsKind, new_loader)"
    using u by blast+
  then show ?thesis
    unfolding shallow_executed
    by (simp add: instances_of_def empty_world_def)
qed

subsection \<open>C5: loadMany\<close>

text \<open>
  C5. \<^verbatim>\<open>loadMany(ks)\<close> on any loader, followed by the dispatch of the window with any
  batch function, always yields a list: one outcome per key, in the order of the keys,
  and the outcome at position \<open>i\<close> is what the promise of \<^verbatim>\<open>load(ks ! i)\<close>, issued
  after the loads of the keys before it, settles to. A cached key yields its cached
  outcome; when the fetch as a whole fails, every position that was not cached holds
  that failure as its entry; otherwise a position holds what the batch function
  returned for its key, an error at one key's position leaving the others as they are.
  The resolvers \<^verbatim>\<open>User.userSubscribedTo\<close> and \<^verbatim>\<open>User.subscribedToUser\<close> return,
  once the list of ids has arrived, exactly the promises of \<^verbatim>\<open>loadMany\<close> on the
  users loader of their schema.
\<close>

theorem loadMany_collects_every_outcome:
  assumes "loadMany ks st = (ps, st1)" and "dispatch fetch st1 = (ds, st2)"
  shows "(\<exists>rs. collect ps ds = Some rs \<and> length rs = length ks
           \<and> (\<forall>i<length ks.
                 await (fst (load (ks ! i) (snd (loadMany (take i ks) st)))) ds = Some (rs ! i))
           \<and> (\<forall>i<length ks. \<forall>r. cache st (ks ! i) = Some r \<longrightarrow> rs ! i = r)
           \<and> (\<forall>i<length ks. \<forall>e.
                 cache st (ks ! i) = None \<and> fetch (dedupe (window st1)) = Inl e
                   \<longrightarrow> rs ! i = Failure e)
           \<and> (\<forall>i<length ks. \<forall>out.
                 cache st (ks ! i) = None \<and> fetch (dedupe (window st1)) = Inr out
                   \<and> length out = length (dedupe (window st1))
                   \<longrightarrow> map_of (zip (dedupe (window st1)) out) (ks ! i) = Some (rs ! i)))
       \<and> (usersLoader (schema_loaders schema) < length (heap w) \<longrightarrow>
            fst (User_userSubscribedTo_resumed schema subs w)
              = fst (loadMany subs (snd (heap w ! usersLoader (schema_loaders schema))))
          \<and> fst (User_subscribedToUser_resumed schema subs w)
              = fst (loadMany subs (snd (heap w ! usersLoader (schema_loaders schema)))))"

proof -
  have ps: "ps = fst (loadMany ks st)" and st1: "st1 = snd (loadMany ks st)"
    using assms(1) by simp_all
  have ds: "ds = fst (dispatch fetch st1)"
    using assms(2) by simp
  let ?out = "\<lambda>i. case cache st (ks ! i) of Some r \<Rightarrow> r | None \<Rightarrow> ds ! site st ks i"
  have settle: "await (ps ! i) ds = Some (?out i)" if "i < length ks" for i
    using promise_settles [OF that, of st fetch] unfolding ds st1 ps by simp
  have "await p ds \<noteq> None" if "p \<in> set ps" for p
  proof -
    from that obtain i where "i < length ps" and "ps ! i = p"
      by (auto simp: in_set_conv_nth)
    then show ?thesis using settle [of i] by (simp add: ps)
  qed
  then have c: "collect ps ds = Some (map (\<lambda>p. case await p ds of Some r \<Rightarrow> r | None \<Rightarrow> Null) ps)"
    by (rule collect_all)
  let ?rs = "map (\<lambda>p. case await p ds of Some r \<Rightarrow> r | None \<Rightarrow> Null) ps"
  have len: "length ?rs = length ks" by (simp add: ps)
  have nth: "?rs ! i = ?out i" if "i < length ks" for i
    using that settle [OF that] by (simp add: ps)
  have a: "await (fst (load (ks ! i) (snd (loadMany (take i ks) st)))) ds = Some (?rs ! i)"
    if "i < length ks" for i
    using settle [OF that] nth [OF that] loadMany_nth [OF that, of st] by (simp add: ps)
  have b: "?rs ! i = r" if "i < length ks" "cache st (ks ! i) = Some r" for i r
    using nth [OF that(1)] that(2) by simp
  have c1: "?rs ! i = Failure e"
    if "i < length ks" "cache st (ks ! i) = None" "fetch (dedupe (window st1)) = Inl e" for i e
    using nth [OF that(1)] that(2) site_in_window [OF that(1,2)]
      delivery_failed [of "site st ks i" st1 fetch e] that(3)
    by (simp add: st1 ds)
  have d: "map_of (zip (dedupe (window st1)) out) (ks ! i) = Some (?rs ! i)"
    if "i < length ks" "cache st (ks ! i) = None" "fetch (dedupe (window st1)) = Inr out"
       "length out = length (dedupe (window st1))" for i out
    using nth [OF that(1)] that(2) site_in_window [OF that(1,2)]
      delivery_fetched [of "site st ks i" st1 fetch out] that(3,4)
    by (simp add: st1 ds)
  have main: "\<exists>rs. collect ps ds = Some rs \<and> length rs = length ks
           \<and> (\<forall>i<length ks.
                 await (fst (load (ks ! i) (snd (loadMany (take i ks) st)))) ds = Some (rs ! i))
           \<and> (\<forall>i<length ks. \<forall>r. cache st (ks ! i) = Some r \<longrightarrow> rs ! i = r)
           \<and> (\<forall>i<length ks. \<forall>e.
                 cache st (ks ! i) = None \<and> fetch (dedupe (window st1)) = Inl e
                   \<longrightarrow> rs ! i = Failure e)
           \<and> (\<forall>i<length ks. \<forall>out.
                 cache st (ks ! i) = None \<and> fetch (dedupe (window st1)) = Inr out
                   \<and> length out = length (dedupe (window st1))
                   \<longrightarrow> map_of (zip (dedupe (window st1)) out) (ks ! i) = Some (rs ! i))"
    using c len a b c1 d by blast
  have r: "usersLoader (schema_loaders schema) < length (heap w) \<longrightarrow>
            fst (User_userSubscribedTo_resumed schema subs w)
              = fst (loadMany subs (snd (heap w ! usersLoader (schema_loaders schema))))
          \<and> fst (User_subscribedToUser_resumed schema subs w)
              = fst (loadMany subs (snd (heap w ! usersLoader (schema_loaders schema))))"
    by (simp add: User_userSubscribedTo_resumed_def User_subscribedToUser_resumed_def
        loadMany_at_def case_prod_beta)
  from main r show ?thesis by (rule conjI)
qed

text \<open>
  An instance of C5, the example of the spec: of three keys the second one fails; the
  list has three entries, the error at the second position.
\<close>

theorem loadMany_collects_witness:
  "collect (fst (loadMany [''k1'', ''k2'', ''k3''] new_loader))
     (fst (dispatch failing_second (snd (loadMany [''k1'', ''k2'', ''k3''] new_loader))))
   = Some [Value 2, Failure (Error ''lookup failed''), Value 2]"
proof -
  let ?ks = "[''k1'', ''k2'', ''k3'']"
  let ?st = "new_loader :: (string, nat) loader"
  have "loadMany ?ks ?st = (fst (loadMany ?ks ?st), snd (loadMany ?ks ?st))"
    and "dispatch failing_second (snd (loadMany ?ks ?st)) =
           (fst (dispatch failing_second (snd (loadMany ?ks ?st))),
            snd (dispatch failing_second (snd (loadMany ?ks ?st))))"
    by simp_all
  from loadMany_collects_every_outcome [OF this, THEN conjunct1]
  obtain rs where c: "collect (fst (loadMany ?ks ?st))
       (fst (dispatch failing_second (snd (loadMany ?ks ?st)))) = Some rs"
    and l: "length rs = length ?ks"
    and o: "\<forall>i<length ?ks. \<forall>out. cache ?st (?ks ! i) = None
              \<and> failing_second (dedupe (window (snd (loadMany ?ks ?st)))) = Inr out
              \<and> length out = length (dedupe (window (snd (loadMany ?ks ?st))))
              \<longrightarrow> map_of (zip (dedupe (window (snd (loadMany ?ks ?st)))) out) (?ks ! i) = Some (rs ! i)"
    by blast
  have w: "window (snd (loadMany ?ks ?st)) = ?ks"
    by (simp add: loadMany_state new_loader_def)
  have f: "failing_second (dedupe ?ks) = Inr [Value 2, Failure (Error ''lookup failed''), Value 2]"
    by (simp add: failing_second_def)
  have n: "cache ?st k = None" for k
    by (simp add: new_loader_def)
  have m: "map_of (zip ?ks [Value 2, Failure (Error ''lookup failed''), Value 2]) (?ks ! i)
             = Some (rs ! i)" if "i < length ?ks" for i
    using o [unfolded w, rule_format, OF that,
             of "[Value 2, Failure (Error ''lookup failed''), Value 2]"] f n
    by simp
  have "rs ! 0 = Value 2" "rs ! 1 = Failure (Error ''lookup failed'')" "rs ! 2 = Value 2"
    using m [of 0] m [of 1] m [of 2] by simp_all
  then have "rs = [Value 2, Failure (Error ''lookup failed''), Value 2]"
    using l by (simp add: list_eq_iff_nth_eq less_Suc_eq numeral_3_eq_3 numeral_2_eq_2)
  with c show ?thesis by simp
qed

subsection \<open>C8: a key the store does not contain\<close>




subsection \<open>C9: a query that fails validation is not executed\<close>

text \<open>
  C9. When the query parses and the validation with the single rule
  \<^verbatim>\<open>depthLimit(5)\<close> reports errors, the handler resolves to a response that holds
  these errors and no data; the database is as before; and the handler's result does
  not depend on the execution function, which is never called.
\<close>

theorem depth_limit_violation_stops_before_execution:
  assumes "parse lib (query req) = Inr document"
      and "validate lib (fst (getSchema prisma (snd (getContext prisma w)))) document
             [depthLimit 5] = errs"
      and "errs \<noteq> []"
  shows "fst (handler lib prisma req w) = Resolves \<lparr>data = None, errors = Some errs\<rparr>
       \<and> db (snd (handler lib prisma req w)) = db w
       \<and> (\<forall>g. handler (lib\<lparr>graphql := g\<rparr>) prisma req w = handler lib prisma req w)"
  using assms
  by (simp add: handler_def getContext_def getSchema_def getLoaders_def Let_def
      split: prod.splits)

text \<open>
  An instance of C9: a query nested seven levels deep, with the stand-in library.
\<close>

theorem depth_limit_violation_witness:
  "fst (handler test_lib memory_client deep_request empty_world) =
     Resolves \<lparr>data = None, errors = Some [GraphQLError ''exceeds maximum operation depth'']\<rparr>
   \<and> db (snd (handler test_lib memory_client deep_request empty_world)) = empty_db"
proof -
  have p: "parse test_lib (query deep_request) = Inr 7"
    by (simp add: test_lib_def deep_request_def braces_def)
  have v: "validate test_lib (fst (getSchema memory_client (snd (getContext memory_client empty_world))))
             7 [depthLimit 5] = [GraphQLError ''exceeds maximum operation depth'']"
    by (simp add: test_lib_def check_rule_def)
  from depth_limit_violation_stops_before_execution [OF p v]
  show ?thesis by (simp add: empty_world_def)
qed

subsection \<open>C10: the delete mutations\<close>

text \<open>
  C10. \<^verbatim>\<open>deletePost\<close>, \<^verbatim>\<open>deleteProfile\<close>, \<^verbatim>\<open>deleteUser\<close> and
  \<^verbatim>\<open>unsubscribeFrom\<close> always resolve to a boolean, whatever the client does: true
  when the delete call is fulfilled, false when it throws or its promise rejects.
\<close>

theorem delete_mutations_resolve_to_boolean:
  "fst (deletePost schema i d) =
     Resolves (succeeded (fst (post_delete (schema_prisma schema) i d)))
   \<and> fst (deleteProfile schema i d) =
       Resolves (succeeded (fst (profile_delete (schema_prisma schema) i d)))
   \<and> fst (deleteUser schema i d) =
       Resolves (succeeded (fst (user_delete (schema_prisma schema) i d)))
   \<and> fst (unsubscribeFrom schema i j d) =
       Resolves (succeeded (fst (subscribersOnAuthors_delete (schema_prisma schema) i j d)))"
  by (simp add: deletePost_def deleteProfile_def deleteUser_def unsubscribeFrom_def
      succeeded_def split: prod.splits completion.splits)

end
